theory Spec2Isabelle
  imports Main
begin

section \<open>Python strings\<close>

text \<open>
  A Python \<open>str\<close> is modelled as a \<open>string\<close>; each \<open>char\<close> stands for one code
  point below 256. \<open>isspace\<close> is \<open>str.isspace\<close> on that range, \<open>strip\<close> is
  \<open>str.strip()\<close> with no argument, and a string is falsy exactly when it is \<open>[]\<close>.
\<close>

definition isspace :: "char \<Rightarrow> bool" where
  "isspace c = ((of_char c :: nat) \<in> {9, 10, 11, 12, 13, 28, 29, 30, 31, 32, 133, 160})"

definition strip :: "string \<Rightarrow> string" where
  "strip s = rev (dropWhile isspace (rev (dropWhile isspace s)))"

definition isdigit :: "char \<Rightarrow> bool" where
  "isdigit c = (48 \<le> (of_char c :: nat) \<and> (of_char c :: nat) \<le> 57)"

text \<open>\<open>str(n)\<close> for a non-negative integer: its decimal digits, most significant first.\<close>

definition digit_char :: "nat \<Rightarrow> char" where
  "digit_char d = char_of (48 + d)"

fun str_nat :: "nat \<Rightarrow> string" where
  "str_nat n = (if n < 10 then [digit_char n] else str_nat (n div 10) @ [digit_char (n mod 10)])"

declare str_nat.simps [simp del]

text \<open>
  \<open>str.zfill(width)\<close>: a string at least \<open>width\<close> long is returned as it is; otherwise
  zeros are put on the left, after a leading sign if there is one.
\<close>

definition zfill :: "nat \<Rightarrow> string \<Rightarrow> string" where
  "zfill width s =
     (if width \<le> length s then s
      else (case s of
              c # rest \<Rightarrow>
                (if c = CHR ''+'' \<or> c = CHR ''-''
                 then c # replicate (width - length s) CHR ''0'' @ rest
                 else replicate (width - length s) CHR ''0'' @ s)
            | [] \<Rightarrow> replicate width CHR ''0''))"

text \<open>The value of a string of decimal digits, used to read a PIN back as a number.\<close>

definition digit_val :: "char \<Rightarrow> nat" where
  "digit_val c = (of_char c :: nat) - 48"

definition decimal_value :: "string \<Rightarrow> nat" where
  "decimal_value s = foldl (\<lambda>acc c. 10 * acc + digit_val c) 0 s"

section \<open>The SQLite file behind AuthManager\<close>

text \<open>
  Table \<open>auth (id INTEGER PRIMARY KEY AUTOINCREMENT, api_key TEXT NOT NULL,
  pin_code TEXT NOT NULL, created_at TIMESTAMP DEFAULT CURRENT_TIMESTAMP)\<close>.
  \<open>has_table\<close> is false until \<open>init_db\<close> has created the table; \<open>seq\<close> is the largest
  id ever handed out, which AUTOINCREMENT keeps across deletions.
\<close>

record auth_row =
  row_id :: nat
  api_key :: string
  pin_code :: string
  created_at :: nat

record database =
  has_table :: bool
  auth :: "auth_row list"
  seq :: nat

definition new_file :: database where
  "new_file = \<lparr>has_table = False, auth = [], seq = 0\<rparr>"

datatype sqlite_error = UnableToOpen | NoSuchTable | DatabaseError

text \<open>
  The calls into \<open>sqlite3\<close> that one operation makes. An operation runs under a fault
  \<open>f :: sql_call option\<close>: \<open>Some c\<close> says that call \<open>c\<close> raises during this operation,
  \<open>None\<close> that the storage medium works.
\<close>

datatype sql_call = Connect | ExecCreate | ExecDelete | ExecInsert | ExecSelect | Commit

text \<open>
  A connection works on its own copy of the file; only \<open>commit\<close> hands the copy back.
  When an exception leaves the operation before \<open>commit\<close>, the copy is dropped with the
  connection, which is SQLite's rollback. \<open>cursor()\<close>, \<open>fetchone()\<close> and \<open>close()\<close> are
  taken not to raise, and so is \<open>AppLogger.error\<close>.
\<close>

definition connect :: "sql_call option \<Rightarrow> database \<Rightarrow> sqlite_error + database" where
  "connect f d = (if f = Some Connect then Inl UnableToOpen else Inr d)"

definition execute_create :: "sql_call option \<Rightarrow> database \<Rightarrow> sqlite_error + database" where
  "execute_create f d =
     (if f = Some ExecCreate then Inl DatabaseError else Inr (d\<lparr>has_table := True\<rparr>))"

definition execute_delete :: "sql_call option \<Rightarrow> database \<Rightarrow> sqlite_error + database" where
  "execute_delete f d =
     (if f = Some ExecDelete then Inl DatabaseError
      else if \<not> has_table d then Inl NoSuchTable
      else Inr (d\<lparr>auth := []\<rparr>))"

definition next_id :: "database \<Rightarrow> nat" where
  "next_id d = Suc (fold max (map row_id (auth d)) (seq d))"

definition execute_insert ::
  "sql_call option \<Rightarrow> nat \<Rightarrow> string \<Rightarrow> string \<Rightarrow> database \<Rightarrow> sqlite_error + database" where
  "execute_insert f now k p d =
     (if f = Some ExecInsert then Inl DatabaseError
      else if \<not> has_table d then Inl NoSuchTable
      else Inr (d\<lparr>auth := auth d @
                         [\<lparr>row_id = next_id d, api_key = k, pin_code = p, created_at = now\<rparr>],
                    seq := next_id d\<rparr>))"

text \<open>\<open>SELECT api_key, pin_code FROM auth ORDER BY id DESC LIMIT 1\<close>, then \<open>fetchone()\<close>.\<close>

fun latest :: "auth_row \<Rightarrow> auth_row list \<Rightarrow> auth_row" where
  "latest best [] = best"
| "latest best (r # rs) = latest (if row_id best < row_id r then r else best) rs"

definition execute_select ::
  "sql_call option \<Rightarrow> database \<Rightarrow> sqlite_error + (string \<times> string) option" where
  "execute_select f d =
     (if f = Some ExecSelect then Inl DatabaseError
      else if \<not> has_table d then Inl NoSuchTable
      else (case auth d of
              [] \<Rightarrow> Inr None
            | r # rs \<Rightarrow> Inr (Some (api_key (latest r rs), pin_code (latest r rs)))))"

definition commit :: "sql_call option \<Rightarrow> database \<Rightarrow> sqlite_error + database" where
  "commit f d = (if f = Some Commit then Inl DatabaseError else Inr d)"

section \<open>AuthManager\<close>

text \<open>
  \<open>db_file\<close> is the file at \<open>db_path\<close>; \<open>logger\<close> collects what \<open>self.logger.error\<close>
  was called with. Each method is a \<open>try\<close> body, which yields a value or raises, wrapped
  by the handler \<open>except Exception\<close>, which logs and returns the failure value.
\<close>

datatype log_entry =
  InitError sqlite_error | SaveError sqlite_error | LoadError sqlite_error | ClearError sqlite_error

record auth_manager =
  db_file :: database
  logger :: "log_entry list"

definition init_db_body :: "sql_call option \<Rightarrow> database \<Rightarrow> sqlite_error + database" where
  "init_db_body f d =
     (case connect f d of Inl e \<Rightarrow> Inl e | Inr c \<Rightarrow>
      (case execute_create f c of Inl e \<Rightarrow> Inl e | Inr c \<Rightarrow>
       commit f c))"

definition init_db :: "sql_call option \<Rightarrow> auth_manager \<Rightarrow> auth_manager" where
  "init_db f self =
     (case init_db_body f (db_file self) of
        Inr d \<Rightarrow> self\<lparr>db_file := d\<rparr>
      | Inl e \<Rightarrow> self\<lparr>logger := logger self @ [InitError e]\<rparr>)"

definition save_credentials_body ::
  "sql_call option \<Rightarrow> nat \<Rightarrow> database \<Rightarrow> string \<Rightarrow> string \<Rightarrow> sqlite_error + database" where
  "save_credentials_body f now d k p =
     (case connect f d of Inl e \<Rightarrow> Inl e | Inr c \<Rightarrow>
      (case execute_delete f c of Inl e \<Rightarrow> Inl e | Inr c \<Rightarrow>
       (case execute_insert f now k p c of Inl e \<Rightarrow> Inl e | Inr c \<Rightarrow>
        commit f c)))"

definition save_credentials ::
  "sql_call option \<Rightarrow> nat \<Rightarrow> auth_manager \<Rightarrow> string \<Rightarrow> string \<Rightarrow> bool \<times> auth_manager" where
  "save_credentials f now self k p =
     (case save_credentials_body f now (db_file self) k p of
        Inr d \<Rightarrow> (True, self\<lparr>db_file := d\<rparr>)
      | Inl e \<Rightarrow> (False, self\<lparr>logger := logger self @ [SaveError e]\<rparr>))"

definition get_credentials_body ::
  "sql_call option \<Rightarrow> database \<Rightarrow> sqlite_error + (string \<times> string) option" where
  "get_credentials_body f d =
     (case connect f d of Inl e \<Rightarrow> Inl e | Inr c \<Rightarrow> execute_select f c)"

definition get_credentials ::
  "sql_call option \<Rightarrow> auth_manager \<Rightarrow> (string \<times> string) option \<times> auth_manager" where
  "get_credentials f self =
     (case get_credentials_body f (db_file self) of
        Inr result \<Rightarrow> (result, self)
      | Inl e \<Rightarrow> (None, self\<lparr>logger := logger self @ [LoadError e]\<rparr>))"

definition clear_credentials_body :: "sql_call option \<Rightarrow> database \<Rightarrow> sqlite_error + database" where
  "clear_credentials_body f d =
     (case connect f d of Inl e \<Rightarrow> Inl e | Inr c \<Rightarrow>
      (case execute_delete f c of Inl e \<Rightarrow> Inl e | Inr c \<Rightarrow>
       commit f c))"

definition clear_credentials :: "sql_call option \<Rightarrow> auth_manager \<Rightarrow> bool \<times> auth_manager" where
  "clear_credentials f self =
     (case clear_credentials_body f (db_file self) of
        Inr d \<Rightarrow> (True, self\<lparr>db_file := d\<rparr>)
      | Inl e \<Rightarrow> (False, self\<lparr>logger := logger self @ [ClearError e]\<rparr>))"

text \<open>
  \<open>generate_pin\<close>: \<open>n\<close> is the value that \<open>secrets.randbelow(10000)\<close> returned, a number
  below 10000.
\<close>

definition generate_pin :: "nat \<Rightarrow> string" where
  "generate_pin n = zfill 4 (str_nat n)"

definition validate_pin :: "sql_call option \<Rightarrow> auth_manager \<Rightarrow> string \<Rightarrow> bool \<times> auth_manager" where
  "validate_pin f self input_pin =
     (case get_credentials f self of
        (None, self') \<Rightarrow> (False, self')
      | (Some stored_credentials, self') \<Rightarrow> (input_pin = snd stored_credentials, self'))"

text \<open>\<open>AuthManager()\<close>: the constructor runs \<open>init_db\<close> on the file it is given.\<close>

definition new_manager :: "sql_call option \<Rightarrow> database \<Rightarrow> auth_manager" where
  "new_manager f d = init_db f \<lparr>db_file = d, logger = []\<rparr>"

section \<open>AuthWindow.handle_submit\<close>

text \<open>
  What the surroundings decide during one call of \<open>handle_submit\<close>: the fault of each of
  its three storage operations (its own \<open>get_credentials\<close>, the one inside
  \<open>validate_pin\<close>, and \<open>save_credentials\<close>), the number \<open>secrets.randbelow\<close> returns,
  the time of the insertion, and whether the callback \<open>on_auth_success\<close> raises.
\<close>

record env =
  fault_read :: "sql_call option"
  fault_check :: "sql_call option"
  fault_save :: "sql_call option"
  drawn :: nat
  clock :: nat
  callback_raises :: bool

text \<open>The messages \<open>handle_submit\<close> writes to \<open>status_text\<close>, in the order of the source.\<close>

datatype status =
  EnterKeyOrPin
| InvalidPin
| EnterKeyFirst
| PinGenerated string
| SaveFailed
| InvalidApiKey

text \<open>
  \<open>shown\<close> lists the status updates of the call in order, \<open>on_auth_success\<close> is the
  argument the callback was called with (if it was called), \<open>raised\<close> says that
  \<open>handle_submit\<close> itself ended with an exception, and \<open>manager\<close> is the AuthManager
  afterwards.
\<close>

record submit_result =
  shown :: "status list"
  on_auth_success :: "string option"
  raised :: bool
  manager :: auth_manager

definition handle_submit :: "env \<Rightarrow> auth_manager \<Rightarrow> string \<Rightarrow> string \<Rightarrow> submit_result" where
  "handle_submit e self api_key_value pin_value =
     (let api_key_s = strip api_key_value;
          pin = strip pin_value
      in if api_key_s = [] \<and> pin = []
         then \<lparr>shown = [EnterKeyOrPin], on_auth_success = None, raised = False, manager = self\<rparr>
         else
           (case get_credentials (fault_read e) self of
              (Some stored_credentials, self1) \<Rightarrow>
                (case validate_pin (fault_check e) self1 pin of
                   (True, self2) \<Rightarrow>
                     \<lparr>shown = [], on_auth_success = Some (fst stored_credentials),
                      raised = callback_raises e, manager = self2\<rparr>
                 | (False, self2) \<Rightarrow>
                     \<lparr>shown = [InvalidPin], on_auth_success = None, raised = False,
                      manager = self2\<rparr>)
            | (None, self1) \<Rightarrow>
                (if api_key_s = []
                 then \<lparr>shown = [EnterKeyFirst], on_auth_success = None, raised = False,
                       manager = self1\<rparr>
                 else
                   (let pin_code_s = generate_pin (drawn e)
                    in (case save_credentials (fault_save e) (clock e) self1 api_key_s pin_code_s of
                          (True, self2) \<Rightarrow>
                            \<lparr>shown = (if callback_raises e
                                      then [PinGenerated pin_code_s, InvalidApiKey]
                                      else [PinGenerated pin_code_s]),
                             on_auth_success = Some api_key_s, raised = False, manager = self2\<rparr>
                        | (False, self2) \<Rightarrow>
                            \<lparr>shown = [SaveFailed], on_auth_success = None, raised = False,
                             manager = self2\<rparr>)))))"

text \<open>A call during which the storage medium works and the callback returns.\<close>

definition quiet :: "nat \<Rightarrow> nat \<Rightarrow> env" where
  "quiet n t = \<lparr>fault_read = None, fault_check = None, fault_save = None,
                drawn = n, clock = t, callback_raises = False\<rparr>"

text \<open>A manager whose table holds the single record \<open>(k, p)\<close>, for concrete evaluation.\<close>

definition holding :: "string \<Rightarrow> string \<Rightarrow> auth_manager" where
  "holding k p = snd (save_credentials None 0 (new_manager None new_file) k p)"

section \<open>Sequences of operations\<close>

text \<open>
  A history of writes to the store, each under its own fault and at its own time, and a
  history of submissions of the form, each in its own surroundings.
\<close>

datatype store_op = Save "sql_call option" nat string string | Clear "sql_call option"

fun run_ops :: "store_op list \<Rightarrow> auth_manager \<Rightarrow> auth_manager" where
  "run_ops [] m = m"
| "run_ops (Save f now k p # ops) m = run_ops ops (snd (save_credentials f now m k p))"
| "run_ops (Clear f # ops) m = run_ops ops (snd (clear_credentials f m))"

fun attempts :: "(env \<times> string \<times> string) list \<Rightarrow> auth_manager \<Rightarrow> auth_manager" where
  "attempts [] m = m"
| "attempts ((e, a, q) # xs) m = attempts xs (manager (handle_submit e m a q))"

text \<open>The \<open>(api_key, pin_code)\<close> pairs of the table, in row order.\<close>

definition records :: "auth_manager \<Rightarrow> (string \<times> string) list" where
  "records m = map (\<lambda>r. (api_key r, pin_code r)) (auth (db_file m))"


section \<open>Storage operations in closed form\<close>

lemma save_credentials_body_eq:
  "save_credentials_body f now d k p =
     (if f = Some Connect then Inl UnableToOpen
      else if f = Some ExecDelete then Inl DatabaseError
      else if \<not> has_table d then Inl NoSuchTable
      else if f = Some ExecInsert then Inl DatabaseError
      else if f = Some Commit then Inl DatabaseError
      else Inr (d\<lparr>auth := [\<lparr>row_id = Suc (seq d), api_key = k, pin_code = p, created_at = now\<rparr>],
                  seq := Suc (seq d)\<rparr>))"
  by (simp add: save_credentials_body_def connect_def execute_delete_def execute_insert_def
      commit_def next_id_def)

lemma get_credentials_body_eq:
  "get_credentials_body f d =
     (if f = Some Connect then Inl UnableToOpen
      else if f = Some ExecSelect then Inl DatabaseError
      else if \<not> has_table d then Inl NoSuchTable
      else (case auth d of
              [] \<Rightarrow> Inr None
            | r # rs \<Rightarrow> Inr (Some (api_key (latest r rs), pin_code (latest r rs)))))"
  by (simp add: get_credentials_body_def connect_def execute_select_def)

lemma clear_credentials_body_eq:
  "clear_credentials_body f d =
     (if f = Some Connect then Inl UnableToOpen
      else if f = Some ExecDelete then Inl DatabaseError
      else if \<not> has_table d then Inl NoSuchTable
      else if f = Some Commit then Inl DatabaseError
      else Inr (d\<lparr>auth := []\<rparr>))"
  by (simp add: clear_credentials_body_def connect_def execute_delete_def commit_def)

lemma save_credentials_True:
  assumes "save_credentials f now m k p = (True, m')"
  shows "has_table (db_file m)"
    and "m' = m\<lparr>db_file := (db_file m)\<lparr>auth := [\<lparr>row_id = Suc (seq (db_file m)), api_key = k,
                                                   pin_code = p, created_at = now\<rparr>],
                                          seq := Suc (seq (db_file m))\<rparr>\<rparr>"
  using assms
  by (auto simp: save_credentials_def save_credentials_body_eq split: if_splits)

lemma save_credentials_False:
  assumes "save_credentials f now m k p = (False, m')"
  shows "db_file m' = db_file m"
  using assms
  by (auto simp: save_credentials_def save_credentials_body_eq split: if_splits)

lemma get_after_save:
  assumes "save_credentials f now m k p = (True, m')"
  shows "get_credentials None m' = (Some (k, p), m')"
  using save_credentials_True [OF assms]
  by (simp add: get_credentials_def get_credentials_body_eq)

lemma records_after_save:
  assumes "save_credentials f now m k p = (True, m')"
  shows "records m' = [(k, p)]"
  using save_credentials_True [OF assms]
  by (simp add: records_def)

lemma save_credentials_working:
  assumes "has_table (db_file m)"
  shows "fst (save_credentials None now m k p) = True"
  using assms by (simp add: save_credentials_def save_credentials_body_eq)

lemma new_manager_None: "new_manager None d = \<lparr>db_file = d\<lparr>has_table := True\<rparr>, logger = []\<rparr>"
  by (simp add: new_manager_def init_db_def init_db_body_def connect_def execute_create_def
      commit_def)

lemma holding_eq:
  "holding k p = \<lparr>db_file = \<lparr>has_table = True,
       auth = [\<lparr>row_id = Suc 0, api_key = k, pin_code = p, created_at = 0\<rparr>], seq = Suc 0\<rparr>,
     logger = []\<rparr>"
  by (simp add: holding_def new_manager_None new_file_def save_credentials_def
      save_credentials_body_eq)

section \<open>Round trip and replacement\<close>

text \<open>
  C2. Round trip: for every non-empty secret and every pin, when \<open>save_credentials\<close>
  returns \<open>True\<close> (under whatever fault it ran), a \<open>get_credentials\<close> that follows on a
  working medium returns exactly the pair that was saved, both strings unchanged.
\<close>

theorem save_then_load_round_trip:
  assumes "secret \<noteq> []"
    and "save_credentials f now m secret pin = (True, m')"
  shows "fst (get_credentials None m') = Some (secret, pin)"
  using get_after_save [OF assms(2)] by simp

theorem save_then_load_round_trip_witness:
  "''sk-abc'' \<noteq> [] \<and>
   save_credentials None 5 (new_manager None new_file) ''sk-abc'' ''0042''
     = (True, \<lparr>db_file = \<lparr>has_table = True,
          auth = [\<lparr>row_id = 1, api_key = ''sk-abc'', pin_code = ''0042'', created_at = 5\<rparr>],
          seq = 1\<rparr>, logger = []\<rparr>) \<and>
   fst (get_credentials None \<lparr>db_file = \<lparr>has_table = True,
          auth = [\<lparr>row_id = 1, api_key = ''sk-abc'', pin_code = ''0042'', created_at = 5\<rparr>],
          seq = 1\<rparr>, logger = []\<rparr>) = Some (''sk-abc'', ''0042'')"
proof -
  have ne: "''sk-abc'' \<noteq> []" by simp
  have sv: "save_credentials None 5 (new_manager None new_file) ''sk-abc'' ''0042''
     = (True, \<lparr>db_file = \<lparr>has_table = True,
          auth = [\<lparr>row_id = 1, api_key = ''sk-abc'', pin_code = ''0042'', created_at = 5\<rparr>],
          seq = 1\<rparr>, logger = []\<rparr>)"
    by (simp add: new_manager_None new_file_def save_credentials_def save_credentials_body_eq)
  from ne sv save_then_load_round_trip [OF ne sv] show ?thesis by simp
qed

text \<open>
  C3. Replace semantics: after a successful save of \<open>(s1, p1)\<close> followed by a successful
  save of \<open>(s2, p2)\<close>, \<open>get_credentials\<close> returns \<open>Some (s2, p2)\<close> and the table holds
  that pair and nothing else.
\<close>

theorem second_save_replaces_first:
  assumes "save_credentials f1 t1 m s1 p1 = (True, m1)"
    and "save_credentials f2 t2 m1 s2 p2 = (True, m2)"
  shows "fst (get_credentials None m2) = Some (s2, p2) \<and> records m2 = [(s2, p2)]"
  using get_after_save [OF assms(2)] records_after_save [OF assms(2)] by simp

theorem second_save_replaces_first_witness:
  "save_credentials None 0 (new_manager None new_file) ''key-one'' ''1111''
     = (True, holding ''key-one'' ''1111'') \<and>
   save_credentials None 2 (holding ''key-one'' ''1111'') ''key-two'' ''2222''
     = (True, \<lparr>db_file = \<lparr>has_table = True,
          auth = [\<lparr>row_id = 2, api_key = ''key-two'', pin_code = ''2222'', created_at = 2\<rparr>],
          seq = 2\<rparr>, logger = []\<rparr>) \<and>
   fst (get_credentials None \<lparr>db_file = \<lparr>has_table = True,
          auth = [\<lparr>row_id = 2, api_key = ''key-two'', pin_code = ''2222'', created_at = 2\<rparr>],
          seq = 2\<rparr>, logger = []\<rparr>) = Some (''key-two'', ''2222'') \<and>
   records \<lparr>db_file = \<lparr>has_table = True,
          auth = [\<lparr>row_id = 2, api_key = ''key-two'', pin_code = ''2222'', created_at = 2\<rparr>],
          seq = 2\<rparr>, logger = []\<rparr> = [(''key-two'', ''2222'')]"
proof -
  have a: "save_credentials None 0 (new_manager None new_file) ''key-one'' ''1111''
     = (True, holding ''key-one'' ''1111'')"
    by (simp add: holding_eq new_manager_None new_file_def save_credentials_def
        save_credentials_body_eq)
  have b: "save_credentials None 2 (holding ''key-one'' ''1111'') ''key-two'' ''2222''
     = (True, \<lparr>db_file = \<lparr>has_table = True,
          auth = [\<lparr>row_id = 2, api_key = ''key-two'', pin_code = ''2222'', created_at = 2\<rparr>],
          seq = 2\<rparr>, logger = []\<rparr>)"
    by (simp add: holding_eq save_credentials_def save_credentials_body_eq)
  from a b second_save_replaces_first [OF a b] show ?thesis by simp
qed

section \<open>The single-record invariant\<close>

lemma clear_credentials_rows:
  "auth (db_file (snd (clear_credentials f m))) = [] \<or>
   db_file (snd (clear_credentials f m)) = db_file m"
  by (simp add: clear_credentials_def clear_credentials_body_eq)

lemma save_credentials_rows:
  "length (auth (db_file (snd (save_credentials f now m k p)))) = 1 \<or>
   db_file (snd (save_credentials f now m k p)) = db_file m"
  by (simp add: save_credentials_def save_credentials_body_eq)

lemma run_ops_at_most_one:
  "length (auth (db_file m)) \<le> 1 \<Longrightarrow> length (auth (db_file (run_ops ops m))) \<le> 1"
proof (induction ops arbitrary: m)
  case Nil
  then show ?case by simp
next
  case (Cons x ops)
  show ?case
  proof (cases x)
    case (Save f now k p)
    have "length (auth (db_file (snd (save_credentials f now m k p)))) \<le> 1"
      using save_credentials_rows [of f now m k p] Cons.prems by auto
    then show ?thesis using Cons.IH Save by simp
  next
    case (Clear f)
    have "length (auth (db_file (snd (clear_credentials f m)))) \<le> 1"
      using clear_credentials_rows [of f m] Cons.prems by auto
    then show ?thesis using Cons.IH Clear by simp
  qed
qed

text \<open>
  C4. Single-record invariant: from a store with no record, after any sequence of
  \<open>save_credentials\<close> and \<open>clear_credentials\<close> calls, each under any fault, the table
  holds at most one row; as the sequence is arbitrary this covers every moment between
  two calls. A save on any store \<open>m0\<close> is all or nothing: when it returns \<open>True\<close> the
  table is exactly the new row, every prior row deleted; when it returns \<open>False\<close> the
  file is as before, the deletion rolled back with the insertion.
\<close>

theorem at_most_one_record:
  assumes "auth (db_file m) = []"
  shows "length (auth (db_file (run_ops ops m))) \<le> 1 \<and>
         (case save_credentials f now m0 k p of
            (True, m') \<Rightarrow>
              auth (db_file m') =
                [\<lparr>row_id = Suc (seq (db_file m0)), api_key = k, pin_code = p, created_at = now\<rparr>]
          | (False, m') \<Rightarrow> db_file m' = db_file m0)"
proof -
  have "length (auth (db_file (run_ops ops m))) \<le> 1"
    using assms by (intro run_ops_at_most_one) simp
  moreover have "case save_credentials f now m0 k p of
            (True, m') \<Rightarrow>
              auth (db_file m') =
                [\<lparr>row_id = Suc (seq (db_file m0)), api_key = k, pin_code = p, created_at = now\<rparr>]
          | (False, m') \<Rightarrow> db_file m' = db_file m0"
    by (simp add: save_credentials_def save_credentials_body_eq)
  ultimately show ?thesis by simp
qed

theorem at_most_one_record_witness:
  "auth (db_file (new_manager None new_file)) = [] \<and>
   length (auth (db_file (run_ops
      [Save None 1 ''key-one'' ''1111'', Save (Some Commit) 2 ''key-two'' ''2222'',
       Save None 3 ''key-three'' ''3333'', Clear (Some Connect), Clear None,
       Save None 4 ''key-four'' ''4444'']
      (new_manager None new_file)))) \<le> 1 \<and>
   (case save_credentials None 9 (holding ''key-one'' ''1111'') ''key-two'' ''2222'' of
      (True, m') \<Rightarrow>
        auth (db_file m') =
          [\<lparr>row_id = Suc (seq (db_file (holding ''key-one'' ''1111''))), api_key = ''key-two'',
            pin_code = ''2222'', created_at = 9\<rparr>]
    | (False, m') \<Rightarrow> db_file m' = db_file (holding ''key-one'' ''1111''))"
proof -
  have h: "auth (db_file (new_manager None new_file)) = []"
    by (simp add: new_manager_None new_file_def)
  note w = at_most_one_record [OF h, where ops = "[Save None 1 ''key-one'' ''1111'',
       Save (Some Commit) 2 ''key-two'' ''2222'', Save None 3 ''key-three'' ''3333'',
       Clear (Some Connect), Clear None, Save None 4 ''key-four'' ''4444'']"
     and f = None and now = 9 and ?m0.0 = "holding ''key-one'' ''1111''" and k = "''key-two''"
     and p = "''2222''"]
  from h w show ?thesis by blast
qed

section \<open>Storage errors\<close>

text \<open>
  C7. Storage errors do not escape. Whenever the body of \<open>save_credentials\<close> raises, the
  method returns \<open>False\<close>, logs the error and leaves the file as it was; whenever the
  body of \<open>get_credentials\<close> raises, the method returns \<open>None\<close> and logs the error. This
  covers a fault at every call the two bodies make into the storage layer. In
  \<open>handle_submit\<close> no storage fault ends the handler with an exception: only the
  callback can.
\<close>

theorem storage_errors_become_failures:
  "(save_credentials_body f now (db_file m) k p = Inl err \<longrightarrow>
      save_credentials f now m k p = (False, m\<lparr>logger := logger m @ [SaveError err]\<rparr>)) \<and>
   (get_credentials_body f (db_file m) = Inl err' \<longrightarrow>
      get_credentials f m = (None, m\<lparr>logger := logger m @ [LoadError err']\<rparr>)) \<and>
   (f \<in> {Some Connect, Some ExecDelete, Some ExecInsert, Some Commit} \<longrightarrow>
      fst (save_credentials f now m k p) = False) \<and>
   (f \<in> {Some Connect, Some ExecSelect} \<longrightarrow> fst (get_credentials f m) = None) \<and>
   (\<not> callback_raises e \<longrightarrow> \<not> raised (handle_submit e m a q))"
proof (intro conjI impI)
  assume "save_credentials_body f now (db_file m) k p = Inl err"
  then show "save_credentials f now m k p = (False, m\<lparr>logger := logger m @ [SaveError err]\<rparr>)"
    by (simp add: save_credentials_def)
next
  assume "get_credentials_body f (db_file m) = Inl err'"
  then show "get_credentials f m = (None, m\<lparr>logger := logger m @ [LoadError err']\<rparr>)"
    by (simp add: get_credentials_def)
next
  assume "f \<in> {Some Connect, Some ExecDelete, Some ExecInsert, Some Commit}"
  then show "fst (save_credentials f now m k p) = False"
    by (auto simp: save_credentials_def save_credentials_body_eq)
next
  assume "f \<in> {Some Connect, Some ExecSelect}"
  then show "fst (get_credentials f m) = None"
    by (auto simp: get_credentials_def get_credentials_body_eq)
next
  assume "\<not> callback_raises e"
  then show "\<not> raised (handle_submit e m a q)"
    by (simp add: handle_submit_def Let_def split: prod.splits option.splits bool.splits)
qed

theorem storage_errors_become_failures_witness:
  "save_credentials_body (Some Connect) 1 (db_file (holding ''sk'' ''1234'')) ''k2'' ''0007''
     = Inl UnableToOpen \<and>
   save_credentials (Some Connect) 1 (holding ''sk'' ''1234'') ''k2'' ''0007''
     = (False, (holding ''sk'' ''1234'')\<lparr>logger := [SaveError UnableToOpen]\<rparr>) \<and>
   get_credentials_body (Some Connect) (db_file (holding ''sk'' ''1234'')) = Inl UnableToOpen \<and>
   get_credentials (Some Connect) (holding ''sk'' ''1234'')
     = (None, (holding ''sk'' ''1234'')\<lparr>logger := [LoadError UnableToOpen]\<rparr>) \<and>
   \<not> callback_raises (quiet 7 1) \<and>
   \<not> raised (handle_submit (quiet 7 1) (holding ''sk'' ''1234'') ''k2'' ''0000'')"
proof -
  have a: "save_credentials_body (Some Connect) 1 (db_file (holding ''sk'' ''1234'')) ''k2'' ''0007''
     = Inl UnableToOpen"
    by (simp add: save_credentials_body_eq)
  have b: "get_credentials_body (Some Connect) (db_file (holding ''sk'' ''1234'')) = Inl UnableToOpen"
    by (simp add: get_credentials_body_eq)
  have c: "\<not> callback_raises (quiet 7 1)"
    by (simp add: quiet_def)
  have l: "logger (holding ''sk'' ''1234'') = []"
    by (simp add: holding_eq)
  from a b c l
    storage_errors_become_failures [of "Some Connect" 1 "holding ''sk'' ''1234''" "''k2''" "''0007''"
      UnableToOpen UnableToOpen "quiet 7 1" "''k2''" "''0000''"]
  show ?thesis by simp
qed

section \<open>No validation in the store\<close>

text \<open>
  C10. \<open>save_credentials\<close> checks nothing about its arguments: on a working medium with
  the table in place, every pair of strings, the empty secret and a pin that is not four
  digits included, is stored and reported as success, and \<open>get_credentials\<close> then
  returns that pair.
\<close>

theorem save_credentials_unvalidated:
  assumes "has_table (db_file m)"
  shows "fst (save_credentials None now m k p) = True \<and>
         fst (get_credentials None (snd (save_credentials None now m k p))) = Some (k, p)"
proof -
  have t: "fst (save_credentials None now m k p) = True"
    using assms by (rule save_credentials_working)
  then have "save_credentials None now m k p = (True, snd (save_credentials None now m k p))"
    by (cases "save_credentials None now m k p") simp
  from get_after_save [OF this] t show ?thesis by simp
qed

theorem save_credentials_unvalidated_witness:
  "has_table (db_file (new_manager None new_file)) \<and>
   fst (save_credentials None 3 (new_manager None new_file) [] ''12ab7'') = True \<and>
   fst (get_credentials None (snd (save_credentials None 3 (new_manager None new_file) [] ''12ab7'')))
     = Some ([], ''12ab7'')"
proof -
  have h: "has_table (db_file (new_manager None new_file))"
    by (simp add: new_manager_None)
  from h save_credentials_unvalidated [OF h] show ?thesis by simp
qed

section \<open>PIN generation\<close>

lemma of_char_digit_char: "d < 10 \<Longrightarrow> (of_char (digit_char d) :: nat) = 48 + d"
  by (simp add: digit_char_def)

lemma isdigit_digit_char: "d < 10 \<Longrightarrow> isdigit (digit_char d)"
  by (simp add: isdigit_def of_char_digit_char)

lemma digit_val_digit_char: "d < 10 \<Longrightarrow> digit_val (digit_char d) = d"
  by (simp add: digit_val_def of_char_digit_char)

lemma str_nat_digits: "list_all isdigit (str_nat n)"
proof (induction n rule: str_nat.induct)
  case (1 n)
  show ?case
  proof (cases "n < 10")
    case True
    then show ?thesis by (simp add: str_nat.simps [of n] isdigit_digit_char)
  next
    case False
    then show ?thesis
      using "1.IH" by (simp add: str_nat.simps [of n] isdigit_digit_char)
  qed
qed

lemma str_nat_length: "0 < k \<Longrightarrow> n < 10 ^ k \<Longrightarrow> length (str_nat n) \<le> k"
proof (induction n arbitrary: k rule: str_nat.induct)
  case (1 n)
  show ?case
  proof (cases "n < 10")
    case True
    then show ?thesis using "1.prems" by (simp add: str_nat.simps [of n])
  next
    case False
    then obtain j where k: "k = Suc j" and j: "0 < j"
      using "1.prems" by (cases k; cases "k - 1") auto
    have "n div 10 < 10 ^ j"
      using "1.prems"(2) k by (simp add: less_mult_imp_div_less mult.commute)
    then have "length (str_nat (n div 10)) \<le> j"
      using "1.IH" [OF False j] by simp
    then show ?thesis using False k by (simp add: str_nat.simps [of n])
  qed
qed

lemma str_nat_nonempty: "str_nat n \<noteq> []"
  by (simp add: str_nat.simps [of n])

lemma decimal_value_append:
  "decimal_value (s @ [c]) = 10 * decimal_value s + digit_val c"
  by (simp add: decimal_value_def)

lemma decimal_value_str_nat: "decimal_value (str_nat n) = n"
proof (induction n rule: str_nat.induct)
  case (1 n)
  show ?case
  proof (cases "n < 10")
    case True
    then show ?thesis
      by (simp add: str_nat.simps [of n] decimal_value_def digit_val_digit_char)
  next
    case False
    then show ?thesis
      using "1.IH" by (simp add: str_nat.simps [of n] decimal_value_append digit_val_digit_char)
  qed
qed

lemma foldl_zeros:
  "foldl (\<lambda>acc c. 10 * acc + digit_val c) 0 (replicate j CHR ''0'') = 0"
  by (induction j) (simp_all add: digit_val_def)

lemma decimal_value_zeros: "decimal_value (replicate j CHR ''0'' @ s) = decimal_value s"
  by (simp add: decimal_value_def foldl_zeros)

lemma isdigit_not_sign: "isdigit c \<Longrightarrow> c \<noteq> CHR ''+'' \<and> c \<noteq> CHR ''-''"
  by (auto simp: isdigit_def)

lemma zfill_digits:
  assumes "list_all isdigit s" and "s \<noteq> []"
  shows "zfill w s = replicate (w - length s) CHR ''0'' @ s"
proof (cases s)
  case Nil
  then show ?thesis using assms by simp
next
  case (Cons c rest)
  then have "c \<noteq> CHR ''+'' \<and> c \<noteq> CHR ''-''"
    using assms(1) isdigit_not_sign by simp
  then show ?thesis using Cons by (simp add: zfill_def)
qed

lemma generate_pin_padding:
  "generate_pin n = replicate (4 - length (str_nat n)) CHR ''0'' @ str_nat n"
  by (simp add: generate_pin_def zfill_digits str_nat_digits str_nat_nonempty)

text \<open>
  C8. PIN format: for every number \<open>n\<close> that \<open>secrets.randbelow(10000)\<close> can return,
  \<open>generate_pin\<close> yields the decimal representation of \<open>n\<close> padded with zeros on the left
  to width 4: a string of exactly four characters, each a decimal digit, whose value is
  \<open>n\<close>. The draw itself is made by \<open>secrets.randbelow\<close>.
\<close>

theorem generate_pin_format:
  assumes "n < 10000"
  shows "length (generate_pin n) = 4 \<and> list_all isdigit (generate_pin n) \<and>
         generate_pin n = replicate (4 - length (str_nat n)) CHR ''0'' @ str_nat n \<and>
         decimal_value (generate_pin n) = n"
proof -
  have "n < 10 ^ 4" using assms by simp
  then have len: "length (str_nat n) \<le> 4"
    by (intro str_nat_length) simp_all
  have "list_all isdigit (replicate (4 - length (str_nat n)) CHR ''0'')"
    by (simp add: list_all_iff isdigit_def)
  then show ?thesis
    using len by (simp add: generate_pin_padding str_nat_digits decimal_value_zeros
        decimal_value_str_nat)
qed

theorem generate_pin_format_witness:
  "(42 :: nat) < 10000 \<and> generate_pin 42 = ''0042'' \<and> length (generate_pin 42) = 4 \<and>
   list_all isdigit (generate_pin 42) \<and> decimal_value (generate_pin 42) = 42"
proof -
  have h: "(42 :: nat) < 10000" by simp
  have v: "generate_pin 42 = ''0042''" by code_simp
  from h v generate_pin_format [OF h] show ?thesis by blast
qed

section \<open>Submitting the form\<close>

lemma get_credentials_db_file: "db_file (snd (get_credentials f m)) = db_file m"
  by (simp add: get_credentials_def split: sum.splits)

lemma get_credentials_Some:
  "fst (get_credentials f m) = Some c \<Longrightarrow> get_credentials f m = (Some c, m)"
  by (auto simp: get_credentials_def split: sum.splits)

lemma get_credentials_fst_cong:
  "db_file m = db_file m' \<Longrightarrow> fst (get_credentials f m) = fst (get_credentials f m')"
  by (simp add: get_credentials_def split: sum.splits)

lemma validate_pin_eq:
  "validate_pin f m q =
     (case fst (get_credentials f m) of None \<Rightarrow> False | Some c \<Rightarrow> q = snd c,
      snd (get_credentials f m))"
  by (cases "get_credentials f m") (simp add: validate_pin_def split: option.splits)

lemma handle_submit_stored:
  assumes "fst (get_credentials None m) = Some (s, p)"
    and "fault_read e = None" and "fault_check e = None"
    and "strip a \<noteq> [] \<or> strip q \<noteq> []"
  shows "handle_submit e m a q =
     (if strip q = p
      then \<lparr>shown = [], on_auth_success = Some s, raised = callback_raises e, manager = m\<rparr>
      else \<lparr>shown = [InvalidPin], on_auth_success = None, raised = False, manager = m\<rparr>)"
proof -
  have g: "get_credentials None m = (Some (s, p), m)"
    using assms(1) by (rule get_credentials_Some)
  show ?thesis
    using assms(2-4) g by (auto simp: handle_submit_def Let_def validate_pin_eq)
qed

lemma handle_submit_found_db_file:
  assumes "fst (get_credentials (fault_read e) m) = Some c"
  shows "db_file (manager (handle_submit e m a q)) = db_file m"
proof -
  have g: "get_credentials (fault_read e) m = (Some c, m)"
    using assms by (rule get_credentials_Some)
  show ?thesis
    using g by (simp add: handle_submit_def Let_def validate_pin_eq get_credentials_db_file
        split: bool.splits)
qed

lemma save_credentials_cong:
  "db_file m = db_file m' \<Longrightarrow>
   fst (save_credentials f t m k p) = fst (save_credentials f t m' k p) \<and>
   db_file (snd (save_credentials f t m k p)) = db_file (snd (save_credentials f t m' k p))"
  by (simp add: save_credentials_def split: sum.splits)

lemma handle_submit_cong:
  assumes "db_file m = db_file m'"
  shows "shown (handle_submit e m a q) = shown (handle_submit e m' a q) \<and>
         on_auth_success (handle_submit e m a q) = on_auth_success (handle_submit e m' a q) \<and>
         raised (handle_submit e m a q) = raised (handle_submit e m' a q) \<and>
         db_file (manager (handle_submit e m a q)) = db_file (manager (handle_submit e m' a q))"
proof -
  obtain r1 m1 where g1: "get_credentials (fault_read e) m = (r1, m1)"
    by (cases "get_credentials (fault_read e) m")
  obtain r2 m2 where g2: "get_credentials (fault_read e) m' = (r2, m2)"
    by (cases "get_credentials (fault_read e) m'")
  have r: "r1 = r2"
    using get_credentials_fst_cong [OF assms, of "fault_read e"] g1 g2 by simp
  have d: "db_file m1 = db_file m2"
    using get_credentials_db_file [of "fault_read e" m] get_credentials_db_file [of "fault_read e" m']
      g1 g2 assms by simp
  note c = get_credentials_fst_cong [OF d, of "fault_check e"]
  note s = save_credentials_cong [OF d]
  show ?thesis
  proof (cases r1)
    case None
    then show ?thesis
      using g1 g2 r d assms s [of "fault_save e" "clock e" "strip a" "generate_pin (drawn e)"]
      by (auto simp: handle_submit_def Let_def split: prod.splits bool.splits)
  next
    case (Some c')
    then show ?thesis
      using g1 g2 r d c assms
      by (auto simp: handle_submit_def Let_def validate_pin_eq get_credentials_db_file
          split: bool.splits)
  qed
qed

lemma attempts_db_file:
  assumes "\<forall>x \<in> set prior. fault_read (fst x) = None"
    and "fst (get_credentials None m) = Some c"
  shows "db_file (attempts prior m) = db_file m"
  using assms
proof (induction prior arbitrary: m)
  case Nil
  then show ?case by simp
next
  case (Cons x xs)
  obtain e a q where x: "x = (e, a, q)" by (cases x)
  have fr: "fault_read e = None" using Cons.prems(1) x by simp
  then have d: "db_file (manager (handle_submit e m a q)) = db_file m"
    using handle_submit_found_db_file [of e m c a q] Cons.prems(2) by simp
  then have "fst (get_credentials None (manager (handle_submit e m a q))) = Some c"
    using get_credentials_fst_cong [OF d, of None] Cons.prems(2) by simp
  then have "db_file (attempts xs (manager (handle_submit e m a q))) =
             db_file (manager (handle_submit e m a q))"
    using Cons.IH Cons.prems(1) by simp
  then show ?case using x d by simp
qed

lemma get_credentials_holding: "get_credentials None (holding k p) = (Some (k, p), holding k p)"
  by (simp add: holding_eq get_credentials_def get_credentials_body_eq)

lemma get_credentials_new_manager:
  "get_credentials None (new_manager None new_file) = (None, new_manager None new_file)"
  by (simp add: new_manager_None new_file_def get_credentials_def get_credentials_body_eq)

text \<open>
  C1. PIN verification is exact string equality. With \<open>(s, p)\<close> the stored record,
  \<open>validate_pin\<close> returns \<open>True\<close> for a pin \<open>q\<close> exactly when \<open>q = p\<close>. In
  \<open>handle_submit\<close> the submitted pin is the PIN field after \<open>strip()\<close>; on a working
  medium, unless both fields are empty, the callback is called with \<open>s\<close> exactly when
  that pin equals \<open>p\<close>, and otherwise \<open>InvalidPin\<close> is shown, nobody is authenticated and
  the manager is as before.
\<close>

theorem pin_check_is_string_equality:
  assumes "fst (get_credentials None m) = Some (s, p)"
    and "fault_read e = None" and "fault_check e = None"
    and "strip a \<noteq> [] \<or> strip pin_value \<noteq> []"
  shows "fst (validate_pin None m q) = (q = p) \<and>
         (on_auth_success (handle_submit e m a pin_value) = Some s) = (strip pin_value = p) \<and>
         handle_submit e m a pin_value =
           (if strip pin_value = p
            then \<lparr>shown = [], on_auth_success = Some s, raised = callback_raises e, manager = m\<rparr>
            else \<lparr>shown = [InvalidPin], on_auth_success = None, raised = False, manager = m\<rparr>)"
proof -
  have "fst (validate_pin None m q) = (q = p)"
    using assms(1) by (simp add: validate_pin_eq)
  moreover note handle_submit_stored [OF assms]
  ultimately show ?thesis by simp
qed

theorem pin_check_is_string_equality_witness:
  "fst (get_credentials None (holding ''sk-abc'' ''1234'')) = Some (''sk-abc'', ''1234'') \<and>
   fault_read (quiet 7 5) = None \<and> fault_check (quiet 7 5) = None \<and>
   strip ''0000'' = ''0000'' \<and> strip ''1234'' = ''1234'' \<and>
   fst (validate_pin None (holding ''sk-abc'' ''1234'') ''123'') = False \<and>
   handle_submit (quiet 7 5) (holding ''sk-abc'' ''1234'') [] ''0000'' =
     \<lparr>shown = [InvalidPin], on_auth_success = None, raised = False,
      manager = holding ''sk-abc'' ''1234''\<rparr> \<and>
   handle_submit (quiet 7 5) (holding ''sk-abc'' ''1234'') [] ''1234'' =
     \<lparr>shown = [], on_auth_success = Some ''sk-abc'', raised = False,
      manager = holding ''sk-abc'' ''1234''\<rparr>"
proof -
  have g: "fst (get_credentials None (holding ''sk-abc'' ''1234'')) = Some (''sk-abc'', ''1234'')"
    by (simp add: get_credentials_holding)
  have r: "fault_read (quiet 7 5) = None" and c: "fault_check (quiet 7 5) = None"
    by (simp_all add: quiet_def)
  have z: "strip ''0000'' = ''0000''" and y: "strip ''1234'' = ''1234''"
    by (simp_all add: strip_def isspace_def)
  have n0: "strip [] \<noteq> [] \<or> strip ''0000'' \<noteq> []" using z by simp
  have n1: "strip [] \<noteq> [] \<or> strip ''1234'' \<noteq> []" using y by simp
  have cr: "callback_raises (quiet 7 5) = False" by (simp add: quiet_def)
  from g r c n0 z y cr
    pin_check_is_string_equality [OF g r c n0, of "''123''"]
    pin_check_is_string_equality [OF g r c n1, of "''123''"]
  show ?thesis by simp
qed

text \<open>
  C5 as the claim states it fails: \<open>validate_pin\<close> returns the same \<open>False\<close> on a store
  without a record as for a wrong pin on a store with one, and \<open>handle_submit\<close>, given a
  pin and an API key on a store without a record, signals no missing credentials: it
  stores the key under a fresh PIN and authenticates.
\<close>

theorem no_credentials_signal_counterexample:
  "fst (validate_pin None (new_manager None new_file) ''1234'') = False \<and>
   fst (validate_pin None (holding ''sk-abc'' ''1234'') ''0000'') = False \<and>
   shown (handle_submit (quiet 7 5) (new_manager None new_file) ''sk-new'' ''1234'')
     = [PinGenerated ''0007''] \<and>
   on_auth_success (handle_submit (quiet 7 5) (new_manager None new_file) ''sk-new'' ''1234'')
     = Some ''sk-new'' \<and>
   records (manager (handle_submit (quiet 7 5) (new_manager None new_file) ''sk-new'' ''1234''))
     = [(''sk-new'', ''0007'')]"
proof -
  have k: "strip ''sk-new'' = ''sk-new''" and q: "strip ''1234'' = ''1234''"
    by (simp_all add: strip_def isspace_def)
  have pin: "generate_pin 7 = ''0007''" by code_simp
  have sv: "save_credentials None 5 (new_manager None new_file) ''sk-new'' ''0007'' =
      (True, \<lparr>db_file = \<lparr>has_table = True,
          auth = [\<lparr>row_id = 1, api_key = ''sk-new'', pin_code = ''0007'', created_at = 5\<rparr>],
          seq = 1\<rparr>, logger = []\<rparr>)"
    by (simp add: new_manager_None new_file_def save_credentials_def save_credentials_body_eq)
  have h: "handle_submit (quiet 7 5) (new_manager None new_file) ''sk-new'' ''1234'' =
      \<lparr>shown = [PinGenerated ''0007''], on_auth_success = Some ''sk-new'', raised = False,
       manager = \<lparr>db_file = \<lparr>has_table = True,
          auth = [\<lparr>row_id = 1, api_key = ''sk-new'', pin_code = ''0007'', created_at = 5\<rparr>],
          seq = 1\<rparr>, logger = []\<rparr>\<rparr>"
    by (simp add: handle_submit_def Let_def k q quiet_def get_credentials_new_manager pin sv)
  show ?thesis
    by (simp add: h records_def validate_pin_eq get_credentials_holding
        get_credentials_new_manager)
qed

text \<open>
  C5, amended. When \<open>handle_submit\<close> finds no stored record it makes no PIN check and
  never shows \<open>InvalidPin\<close>: with an empty API-key field it shows the distinct
  \<open>EnterKeyFirst\<close>, authenticates nobody and leaves the file as it is; with an API key
  it runs the first-time set-up. \<open>validate_pin\<close> has no signal of its own for a missing
  record: it returns \<open>False\<close>.
\<close>

theorem no_record_enters_first_time_flow:
  assumes "fst (get_credentials (fault_read e) m) = None"
    and "strip a \<noteq> [] \<or> strip q \<noteq> []"
  shows "InvalidPin \<notin> set (shown (handle_submit e m a q)) \<and>
         (strip a = [] \<longrightarrow>
            shown (handle_submit e m a q) = [EnterKeyFirst] \<and>
            on_auth_success (handle_submit e m a q) = None \<and>
            db_file (manager (handle_submit e m a q)) = db_file m) \<and>
         (strip a \<noteq> [] \<longrightarrow>
            (case save_credentials (fault_save e) (clock e) (snd (get_credentials (fault_read e) m))
                    (strip a) (generate_pin (drawn e)) of
               (True, m') \<Rightarrow>
                 on_auth_success (handle_submit e m a q) = Some (strip a) \<and>
                 manager (handle_submit e m a q) = m'
             | (False, m') \<Rightarrow>
                 shown (handle_submit e m a q) = [SaveFailed] \<and>
                 on_auth_success (handle_submit e m a q) = None)) \<and>
         fst (validate_pin (fault_read e) m q') = False"
proof -
  obtain m1 where g: "get_credentials (fault_read e) m = (None, m1)"
    using assms(1) by (cases "get_credentials (fault_read e) m") simp
  have d: "db_file m1 = db_file m"
    using get_credentials_db_file [of "fault_read e" m] g by simp
  have v: "fst (validate_pin (fault_read e) m q') = False"
    using assms(1) by (simp add: validate_pin_eq)
  show ?thesis
    using assms(2) g d v
    by (auto simp: handle_submit_def Let_def split: prod.splits bool.splits)
qed

theorem no_record_enters_first_time_flow_witness:
  "fst (get_credentials (fault_read (quiet 7 5)) (new_manager None new_file)) = None \<and>
   strip ''1234'' = ''1234'' \<and> strip [] = [] \<and>
   shown (handle_submit (quiet 7 5) (new_manager None new_file) [] ''1234'') = [EnterKeyFirst] \<and>
   on_auth_success (handle_submit (quiet 7 5) (new_manager None new_file) [] ''1234'') = None \<and>
   db_file (manager (handle_submit (quiet 7 5) (new_manager None new_file) [] ''1234''))
     = db_file (new_manager None new_file) \<and>
   strip ''sk-new'' \<noteq> [] \<and>
   on_auth_success (handle_submit (quiet 7 5) (new_manager None new_file) ''sk-new'' ''1234'')
     = Some ''sk-new'' \<and>
   fst (validate_pin (fault_read (quiet 7 5)) (new_manager None new_file) ''1234'') = False"
proof -
  have fr: "fault_read (quiet 7 5) = None" "fault_save (quiet 7 5) = None"
    "clock (quiet 7 5) = 5" "drawn (quiet 7 5) = 7"
    by (simp_all add: quiet_def)
  have g: "fst (get_credentials (fault_read (quiet 7 5)) (new_manager None new_file)) = None"
    by (simp add: fr get_credentials_new_manager)
  have q: "strip ''1234'' = ''1234''" and k: "strip ''sk-new'' = ''sk-new''"
    and n: "strip [] = []"
    by (simp_all add: strip_def isspace_def)
  have h: "strip [] \<noteq> [] \<or> strip ''1234'' \<noteq> []" using q by simp
  have h': "strip ''sk-new'' \<noteq> [] \<or> strip ''1234'' \<noteq> []" using q by simp
  have pin: "generate_pin 7 = ''0007''" by code_simp
  have sv: "save_credentials None 5 (new_manager None new_file) ''sk-new'' ''0007'' =
      (True, \<lparr>db_file = \<lparr>has_table = True,
          auth = [\<lparr>row_id = 1, api_key = ''sk-new'', pin_code = ''0007'', created_at = 5\<rparr>],
          seq = 1\<rparr>, logger = []\<rparr>)"
    by (simp add: new_manager_None new_file_def save_credentials_def save_credentials_body_eq)
  from g q n k
    no_record_enters_first_time_flow [OF g h, of "''1234''"]
    no_record_enters_first_time_flow [OF g h', of "''1234''"]
  show ?thesis
    by (simp add: fr get_credentials_new_manager pin sv)
qed

text \<open>
  C6 as the claim states it fails: with text in the API-key field, a whitespace-only pin
  is not rejected as empty; it is compared with the stored pin and \<open>InvalidPin\<close> is
  shown.
\<close>

theorem empty_pin_signal_counterexample:
  "strip ''   '' = [] \<and>
   shown (handle_submit (quiet 7 5) (holding ''sk-abc'' ''1234'') ''sk-abc'' ''   '')
     = [InvalidPin]"
proof -
  have q: "strip ''   '' = []" and k: "strip ''sk-abc'' = ''sk-abc''"
    by (simp_all add: strip_def isspace_def)
  have g: "fst (get_credentials None (holding ''sk-abc'' ''1234'')) = Some (''sk-abc'', ''1234'')"
    by (simp add: get_credentials_holding)
  have "handle_submit (quiet 7 5) (holding ''sk-abc'' ''1234'') ''sk-abc'' ''   '' =
      \<lparr>shown = [InvalidPin], on_auth_success = None, raised = False,
       manager = holding ''sk-abc'' ''1234''\<rparr>"
    using handle_submit_stored [OF g, of "quiet 7 5" "''sk-abc''" "''   ''"]
    by (simp add: q k quiet_def)
  then show ?thesis using q by simp
qed

text \<open>
  C6, amended. A submission whose PIN field is empty or whitespace-only is rejected with
  the distinct \<open>EnterKeyOrPin\<close> signal when the API-key field is empty or whitespace-only
  too: nobody is authenticated and the manager is returned as it was, whatever the
  faults of the medium, so storage is not touched. When the API-key field holds text,
  the empty pin is compared with the stored pin like any other pin.
\<close>

theorem empty_form_is_rejected:
  assumes "strip q = []"
  shows "(strip a = [] \<longrightarrow>
            handle_submit e m a q =
              \<lparr>shown = [EnterKeyOrPin], on_auth_success = None, raised = False, manager = m\<rparr>) \<and>
         (strip a \<noteq> [] \<and> fst (get_credentials None m) = Some (s, p) \<and>
          fault_read e = None \<and> fault_check e = None \<longrightarrow>
            handle_submit e m a q =
              (if p = []
               then \<lparr>shown = [], on_auth_success = Some s, raised = callback_raises e,
                     manager = m\<rparr>
               else \<lparr>shown = [InvalidPin], on_auth_success = None, raised = False,
                     manager = m\<rparr>))"
proof (intro conjI impI)
  assume "strip a = []"
  then show "handle_submit e m a q =
      \<lparr>shown = [EnterKeyOrPin], on_auth_success = None, raised = False, manager = m\<rparr>"
    using assms by (simp add: handle_submit_def)
next
  assume h: "strip a \<noteq> [] \<and> fst (get_credentials None m) = Some (s, p) \<and>
             fault_read e = None \<and> fault_check e = None"
  then have "handle_submit e m a q =
     (if strip q = p
      then \<lparr>shown = [], on_auth_success = Some s, raised = callback_raises e, manager = m\<rparr>
      else \<lparr>shown = [InvalidPin], on_auth_success = None, raised = False, manager = m\<rparr>)"
    by (intro handle_submit_stored) simp_all
  then show "handle_submit e m a q =
      (if p = []
       then \<lparr>shown = [], on_auth_success = Some s, raised = callback_raises e, manager = m\<rparr>
       else \<lparr>shown = [InvalidPin], on_auth_success = None, raised = False, manager = m\<rparr>)"
    using assms by auto
qed

theorem empty_form_is_rejected_witness:
  "strip ''   '' = [] \<and> strip [] = [] \<and>
   handle_submit ((quiet 7 5)\<lparr>fault_read := Some Connect\<rparr>) (holding ''sk-abc'' ''1234'') []
       ''   '' =
     \<lparr>shown = [EnterKeyOrPin], on_auth_success = None, raised = False,
      manager = holding ''sk-abc'' ''1234''\<rparr> \<and>
   strip ''sk-abc'' \<noteq> [] \<and>
   fst (get_credentials None (holding ''sk-abc'' ''1234'')) = Some (''sk-abc'', ''1234'') \<and>
   fault_read (quiet 7 5) = None \<and> fault_check (quiet 7 5) = None \<and>
   handle_submit (quiet 7 5) (holding ''sk-abc'' ''1234'') ''sk-abc'' ''   '' =
     \<lparr>shown = [InvalidPin], on_auth_success = None, raised = False,
      manager = holding ''sk-abc'' ''1234''\<rparr>"
proof -
  have q: "strip ''   '' = []" and n: "strip [] = []" and k: "strip ''sk-abc'' = ''sk-abc''"
    by (simp_all add: strip_def isspace_def)
  have g: "fst (get_credentials None (holding ''sk-abc'' ''1234'')) = Some (''sk-abc'', ''1234'')"
    by (simp add: get_credentials_holding)
  have f: "fault_read (quiet 7 5) = None" "fault_check (quiet 7 5) = None"
    by (simp_all add: quiet_def)
  from q n k g f
    empty_form_is_rejected [OF q, of "[]" "(quiet 7 5)\<lparr>fault_read := Some Connect\<rparr>"
      "holding ''sk-abc'' ''1234''" "''sk-abc''" "''1234''"]
    empty_form_is_rejected [OF q, of "''sk-abc''" "quiet 7 5"
      "holding ''sk-abc'' ''1234''" "''sk-abc''" "''1234''"]
  show ?thesis by simp
qed

text \<open>
  C9. Attempts are independent and write nothing. With \<open>(s, p)\<close> the stored record,
  after any sequence of earlier submissions whose own read of the store worked, failed
  or not, the file is what it was: no counter, no lock, no other state is written. The
  outcome of the next submission is the one it would have had with no earlier attempt,
  and on a working medium it is the same for every manager whose stored record is
  \<open>(s, p)\<close>: it depends on the submitted pin and the stored record only.
\<close>

theorem pin_attempts_are_independent:
  assumes "fst (get_credentials None m) = Some (s, p)"
    and "\<forall>x \<in> set prior. fault_read (fst x) = None"
  shows "db_file (attempts prior m) = db_file m \<and>
         shown (handle_submit e (attempts prior m) a q) = shown (handle_submit e m a q) \<and>
         on_auth_success (handle_submit e (attempts prior m) a q)
           = on_auth_success (handle_submit e m a q) \<and>
         (InvalidPin \<in> set (shown (handle_submit e0 m0 a0 q0)) \<longrightarrow>
            db_file (manager (handle_submit e0 m0 a0 q0)) = db_file m0) \<and>
         (fault_read e = None \<longrightarrow> db_file (manager (handle_submit e m a q)) = db_file m) \<and>
         (fault_read e = None \<and> fault_check e = None \<and>
          fst (get_credentials None m') = Some (s, p) \<longrightarrow>
            shown (handle_submit e m' a q) = shown (handle_submit e m a q) \<and>
            on_auth_success (handle_submit e m' a q) = on_auth_success (handle_submit e m a q))"
proof -
  have d: "db_file (attempts prior m) = db_file m"
    using assms(2) assms(1) by (rule attempts_db_file)
  note c = handle_submit_cong [OF d, of e a q]
  have w: "fault_read e = None \<longrightarrow> db_file (manager (handle_submit e m a q)) = db_file m"
    using handle_submit_found_db_file [of e m "(s, p)" a q] assms(1) by simp
  have i: "fault_read e = None \<and> fault_check e = None \<and>
          fst (get_credentials None m') = Some (s, p) \<longrightarrow>
            shown (handle_submit e m' a q) = shown (handle_submit e m a q) \<and>
            on_auth_success (handle_submit e m' a q) = on_auth_success (handle_submit e m a q)"
  proof (cases "strip a = [] \<and> strip q = []")
    case True
    then show ?thesis by (simp add: handle_submit_def)
  next
    case False
    then have ne: "strip a \<noteq> [] \<or> strip q \<noteq> []" by simp
    show ?thesis
    proof (intro impI, elim conjE)
      assume fr: "fault_read e = None" and fc: "fault_check e = None"
        and g': "fst (get_credentials None m') = Some (s, p)"
      show "shown (handle_submit e m' a q) = shown (handle_submit e m a q) \<and>
            on_auth_success (handle_submit e m' a q) = on_auth_success (handle_submit e m a q)"
        by (simp add: handle_submit_stored [OF g' fr fc ne]
            handle_submit_stored [OF assms(1) fr fc ne])
    qed
  qed
  have fr: "InvalidPin \<in> set (shown (handle_submit e0 m0 a0 q0)) \<longrightarrow>
            db_file (manager (handle_submit e0 m0 a0 q0)) = db_file m0"
  proof
    assume inv: "InvalidPin \<in> set (shown (handle_submit e0 m0 a0 q0))"
    have "fst (get_credentials (fault_read e0) m0) \<noteq> None"
    proof
      assume "fst (get_credentials (fault_read e0) m0) = None"
      then obtain m1 where "get_credentials (fault_read e0) m0 = (None, m1)"
        by (cases "get_credentials (fault_read e0) m0") simp
      then show False
        using inv by (auto simp: handle_submit_def Let_def split: if_splits prod.splits bool.splits)
    qed
    then obtain c0 where "fst (get_credentials (fault_read e0) m0) = Some c0" by auto
    then show "db_file (manager (handle_submit e0 m0 a0 q0)) = db_file m0"
      by (rule handle_submit_found_db_file)
  qed
  from d c w i fr show ?thesis by simp
qed

theorem pin_attempts_are_independent_witness:
  "fst (get_credentials None (holding ''sk-abc'' ''1234'')) = Some (''sk-abc'', ''1234'') \<and>
   fault_read (quiet 7 5) = None \<and>
   fault_read ((quiet 8 6)\<lparr>fault_check := Some Connect\<rparr>) = None \<and>
   fault_read (quiet 9 7) = None \<and>
   db_file (attempts [(quiet 7 5, [], ''0000''),
                      ((quiet 8 6)\<lparr>fault_check := Some Connect\<rparr>, [], ''1234''),
                      (quiet 9 7, ''sk-other'', ''9999'')] (holding ''sk-abc'' ''1234''))
     = db_file (holding ''sk-abc'' ''1234'') \<and>
   on_auth_success (handle_submit (quiet 3 8)
       (attempts [(quiet 7 5, [], ''0000''),
                  ((quiet 8 6)\<lparr>fault_check := Some Connect\<rparr>, [], ''1234''),
                  (quiet 9 7, ''sk-other'', ''9999'')] (holding ''sk-abc'' ''1234''))
       [] ''1234'') = Some ''sk-abc'' \<and>
   InvalidPin \<in> set (shown (handle_submit (quiet 7 5) (holding ''sk-abc'' ''1234'') [] ''0000'')) \<and>
   db_file (manager (handle_submit (quiet 7 5) (holding ''sk-abc'' ''1234'') [] ''0000''))
     = db_file (holding ''sk-abc'' ''1234'') \<and>
   fault_read (quiet 3 8) = None \<and> fault_check (quiet 3 8) = None \<and>
   db_file (manager (handle_submit (quiet 3 8) (holding ''sk-abc'' ''1234'') [] ''1234''))
     = db_file (holding ''sk-abc'' ''1234'') \<and>
   fst (get_credentials None
     \<lparr>db_file = \<lparr>has_table = True,
        auth = [\<lparr>row_id = 4, api_key = ''sk-abc'', pin_code = ''1234'', created_at = 9\<rparr>],
        seq = 6\<rparr>, logger = [LoadError UnableToOpen]\<rparr>) = Some (''sk-abc'', ''1234'') \<and>
   on_auth_success (handle_submit (quiet 3 8)
     \<lparr>db_file = \<lparr>has_table = True,
        auth = [\<lparr>row_id = 4, api_key = ''sk-abc'', pin_code = ''1234'', created_at = 9\<rparr>],
        seq = 6\<rparr>, logger = [LoadError UnableToOpen]\<rparr> [] ''1234'') = Some ''sk-abc''"
proof -
  have g: "fst (get_credentials None (holding ''sk-abc'' ''1234'')) = Some (''sk-abc'', ''1234'')"
    by (simp add: get_credentials_holding)
  have g': "fst (get_credentials None
     \<lparr>db_file = \<lparr>has_table = True,
        auth = [\<lparr>row_id = 4, api_key = ''sk-abc'', pin_code = ''1234'', created_at = 9\<rparr>],
        seq = 6\<rparr>, logger = [LoadError UnableToOpen]\<rparr>) = Some (''sk-abc'', ''1234'')"
    by (simp add: get_credentials_def get_credentials_body_eq)
  have e: "fault_read (quiet 3 8) = None" "fault_check (quiet 3 8) = None"
    by (simp_all add: quiet_def)
  have f: "\<forall>x \<in> set [(quiet 7 5, [], ''0000''),
                ((quiet 8 6)\<lparr>fault_check := Some Connect\<rparr>, [], ''1234''),
                (quiet 9 7, ''sk-other'', ''9999'')]. fault_read (fst x) = None"
    by (simp add: quiet_def)
  have y: "strip ''1234'' = ''1234''"
    by (simp add: strip_def isspace_def)
  have o: "on_auth_success (handle_submit (quiet 3 8) (holding ''sk-abc'' ''1234'') [] ''1234'')
      = Some ''sk-abc''"
    using handle_submit_stored [OF g, of "quiet 3 8" "[]" "''1234''"]
    by (simp add: y quiet_def)
  have z: "strip ''0000'' = ''0000''"
    by (simp add: strip_def isspace_def)
  have i: "InvalidPin \<in> set (shown (handle_submit (quiet 7 5) (holding ''sk-abc'' ''1234'') []
      ''0000''))"
    using handle_submit_stored [OF g, of "quiet 7 5" "[]" "''0000''"]
    by (simp add: z quiet_def)
  have f': "fault_read (quiet 7 5) = None"
    "fault_read ((quiet 8 6)\<lparr>fault_check := Some Connect\<rparr>) = None"
    "fault_read (quiet 9 7) = None"
    by (simp_all add: quiet_def)
  from g g' e f' o i
    pin_attempts_are_independent [OF g f, where e = "quiet 3 8" and a = "[]" and q = "''1234''"
      and m' = "\<lparr>db_file = \<lparr>has_table = True,
        auth = [\<lparr>row_id = 4, api_key = ''sk-abc'', pin_code = ''1234'', created_at = 9\<rparr>],
        seq = 6\<rparr>, logger = [LoadError UnableToOpen]\<rparr>"
      and ?e0.0 = "quiet 7 5" and ?m0.0 = "holding ''sk-abc'' ''1234''" and ?a0.0 = "[]"
      and ?q0.0 = "''0000''"]
  show ?thesis by simp
qed

end
